theory Spec2Isabelle
  imports Main "HOL-Library.Word" "HOL-Library.Finite_Map"
begin

section \<open>The cache of go-cache (cache.go)\<close>

text \<open>
  The model follows cache.go function by function. The lock \<open>mu\<close> is left out: every
  operation below is one atomic step on the cache, which is what the lock makes it.
  Every reading of \<open>time.Now().UnixNano()\<close> is an argument of the operation that
  reads the clock. \<open>int64\<close> values are 64-bit words, compared as signed numbers
  (\<open><s\<close>, \<open>\<le>s\<close>); their sums and differences wrap around.
\<close>

type_synonym byte = char
type_synonym bytes = "byte list"
type_synonym int64 = "64 word"
type_synonym Duration = int64

record Item =
  Value :: bytes
  Expiration :: int64
  Created :: int64

text \<open>
  The channel \<open>stopCleanup\<close> is unbuffered and holds no data of its own: a send on it
  completes exactly when a goroutine is receiving. The only receiver is the goroutine
  running \<open>startJanitor\<close>, so the model keeps that goroutine's state in its place.
\<close>

datatype goroutine = NotStarted | Running | Returned

record Cache =
  items :: "(string, Item) fmap"
  cleanupInterval :: Duration
  janitor :: goroutine

text \<open>
  \<open>errors_New s\<close> is \<open>errors.New(s)\<close>. The others are errors of encoding/json:
  \<open>json_error s\<close> is one whose message is \<open>s\<close>; \<open>json_invalid_character ch\<close> is the
  SyntaxError that names the byte \<open>ch\<close> as an invalid character looking for the beginning
  of a value; \<open>json_unexpected_end\<close> is the SyntaxError "unexpected end of JSON input";
  \<open>json_cannot_unmarshal\<close> is the error (a SyntaxError or an UnmarshalTypeError) with
  which the decoder refuses data it cannot put into its target.
\<close>

datatype error =
    errors_New string
  | json_error string
  | json_invalid_character byte
  | json_unexpected_end
  | json_cannot_unmarshal

text \<open>The dynamic type of an \<open>interface{}\<close> argument, as the type switch sees it.\<close>

datatype 'a val = VBytes bytes | VString string | VOther 'a

text \<open>
  A Go string is a sequence of bytes, and \<open>char\<close> is the 8-bit byte: the conversions
  \<open>[]byte(s)\<close> and \<open>string(b)\<close> keep the bytes as they are.
\<close>

definition bytes_of_string :: "string \<Rightarrow> bytes" where
  "bytes_of_string s = s"

definition string_of_bytes :: "bytes \<Rightarrow> string" where
  "string_of_bytes b = b"

definition New :: "Duration \<Rightarrow> Cache" where
  "New ci = \<lparr>items = fmempty, cleanupInterval = ci,
             janitor = (if 0 <s ci then Running else NotStarted)\<rparr>"

text \<open>
  The type switch of \<open>SetWithExpiration\<close>. \<open>json.Marshal\<close> belongs to the standard
  library: it is the parameter \<open>marshal\<close>. A \<open>[]byte\<close> value is kept as it is,
  uncopied; \<open>VBytes\<close> carries what the slice shows when the call is made, and the
  array that the caller goes on sharing with the cache is the matter of the section on
  shared slices below.
\<close>

fun to_bytes :: "('a \<Rightarrow> error + bytes) \<Rightarrow> 'a val \<Rightarrow> error + bytes" where
  "to_bytes marshal (VBytes v) = Inr v"
| "to_bytes marshal (VString v) = Inr (bytes_of_string v)"
| "to_bytes marshal (VOther v) = marshal v"

text \<open>
  \<open>now1\<close> is the clock read for the expiration (only read when the duration is positive),
  \<open>now2\<close> the one read for \<open>Created\<close>. \<open>time.Now().Add(d).UnixNano()\<close> is the
  64-bit sum: \<open>UnixNano\<close> wraps around when the instant does not fit.
\<close>

definition SetWithExpiration ::
  "('a \<Rightarrow> error + bytes) \<Rightarrow> Cache \<Rightarrow> string \<Rightarrow> 'a val \<Rightarrow> Duration \<Rightarrow> int64 \<Rightarrow> int64
     \<Rightarrow> error option \<times> Cache" where
  "SetWithExpiration marshal c key v duration now1 now2 =
     (case to_bytes marshal v of
        Inl err \<Rightarrow> (Some err, c)
      | Inr bs \<Rightarrow>
          let expiration = (if duration \<le>s 0 then 0 else now1 + duration)
          in (None, c\<lparr>items := fmupd key \<lparr>Value = bs, Expiration = expiration, Created = now2\<rparr>
                                  (items c)\<rparr>))"

definition Set_key ::
  "('a \<Rightarrow> error + bytes) \<Rightarrow> Cache \<Rightarrow> string \<Rightarrow> 'a val \<Rightarrow> int64 \<Rightarrow> error option \<times> Cache" where
  "Set_key marshal c key v now = SetWithExpiration marshal c key v 0 now now"

definition GetBytes :: "Cache \<Rightarrow> string \<Rightarrow> int64 \<Rightarrow> bytes \<times> bool" where
  "GetBytes c key now =
     (case fmlookup (items c) key of
        None \<Rightarrow> ([], False)
      | Some item \<Rightarrow>
          if 0 <s Expiration item \<and> Expiration item <s now then ([], False)
          else (Value item, True))"

text \<open>
  The target of \<open>Get\<close>: the nil interface, a \<open>*string\<close> (which may be a nil pointer) or
  any other pointer, whose pointee \<open>json.Unmarshal\<close> (the parameter \<open>unmarshal\<close>) may
  rewrite. The result carries the target as \<open>Get\<close> leaves it.
\<close>

datatype 'p target = NilTarget | StringPtr "string option" | OtherPtr 'p

datatype panic = NilDereference

definition Get ::
  "(bytes \<Rightarrow> 'p \<Rightarrow> error option \<times> 'p) \<Rightarrow> Cache \<Rightarrow> string \<Rightarrow> 'p target \<Rightarrow> int64
     \<Rightarrow> panic + (bool \<times> error option \<times> 'p target)" where
  "Get unmarshal c key tgt now =
     (case GetBytes c key now of
        (bs, found) \<Rightarrow>
          if \<not> found then Inr (False, None, tgt)
          else (case tgt of
                  NilTarget \<Rightarrow> Inr (True, None, tgt)
                | StringPtr None \<Rightarrow> Inl NilDereference
                | StringPtr (Some _) \<Rightarrow> Inr (True, None, StringPtr (Some (string_of_bytes bs)))
                | OtherPtr p \<Rightarrow>
                    (case unmarshal bs p of (err, p') \<Rightarrow> Inr (True, err, OtherPtr p'))))"


definition Delete :: "Cache \<Rightarrow> string \<Rightarrow> Cache" where
  "Delete c key = c\<lparr>items := fmdrop key (items c)\<rparr>"

definition Exists :: "Cache \<Rightarrow> string \<Rightarrow> int64 \<Rightarrow> bool" where
  "Exists c key now =
     (case fmlookup (items c) key of
        None \<Rightarrow> False
      | Some item \<Rightarrow>
          if 0 <s Expiration item \<and> Expiration item <s now then False else True)"

definition Flush :: "Cache \<Rightarrow> Cache" where
  "Flush c = c\<lparr>items := fmempty\<rparr>"

definition Count :: "Cache \<Rightarrow> nat" where
  "Count c = fcard (fmdom (items c))"

text \<open>
  The loop of \<open>DeleteExpired\<close> ranges over the map while deleting from it. \<open>ks\<close> is the
  order in which the runtime hands out the keys; a key whose entry is gone when its turn
  comes is not produced.
\<close>

fun range_items :: "int64 \<Rightarrow> string list \<Rightarrow> (string, Item) fmap \<Rightarrow> (string, Item) fmap" where
  "range_items now [] m = m"
| "range_items now (k # ks) m =
     (case fmlookup m k of
        None \<Rightarrow> range_items now ks m
      | Some v \<Rightarrow>
          if 0 <s Expiration v \<and> Expiration v <s now then range_items now ks (fmdrop k m)
          else range_items now ks m)"

definition range_order :: "string list \<Rightarrow> (string, Item) fmap \<Rightarrow> bool" where
  "range_order ks m \<longleftrightarrow> distinct ks \<and> set ks = fmdom' m"

definition DeleteExpired :: "Cache \<Rightarrow> int64 \<Rightarrow> string list \<Rightarrow> Cache" where
  "DeleteExpired c now ks = c\<lparr>items := range_items now ks (items c)\<rparr>"

text \<open>One turn of the janitor's \<open>select\<close> on a tick of its ticker.\<close>

definition startJanitor_tick :: "Cache \<Rightarrow> int64 \<Rightarrow> string list \<Rightarrow> Cache" where
  "startJanitor_tick c now ks = (if janitor c = Running then DeleteExpired c now ks else c)"

text \<open>
  \<open>StopJanitor\<close> sends on the unbuffered channel. The send returns once the janitor has
  received, and the janitor then returns; with no goroutine left to receive, the send
  never returns.
\<close>

datatype 'a outcome = Returns 'a | BlocksForever

definition StopJanitor :: "Cache \<Rightarrow> Cache outcome" where
  "StopJanitor c =
     (if 0 <s cleanupInterval c then
        (case janitor c of
           Running \<Rightarrow> Returns (c\<lparr>janitor := Returned\<rparr>)
         | NotStarted \<Rightarrow> BlocksForever
         | Returned \<Rightarrow> BlocksForever)
      else Returns c)"

definition TTL :: "Cache \<Rightarrow> string \<Rightarrow> int64 \<Rightarrow> Duration \<times> error option" where
  "TTL c key now =
     (case fmlookup (items c) key of
        None \<Rightarrow> (0, Some (errors_New ''key not found''))
      | Some item \<Rightarrow>
          if Expiration item = 0 then (- 1, None)
          else if Expiration item <s now then (0, Some (errors_New ''key expired''))
          else (Expiration item - now, None))"

subsection \<open>Sequences of calls\<close>

text \<open>
  The calls that can change a cache, each with the clock readings and the iteration order
  it meets, and the state a sequence of them leaves. A \<open>StopJanitor\<close> that never
  returns leaves the cache as it is.
\<close>

datatype 'a call =
    CallSet string "'a val" Duration int64 int64
  | CallDelete string
  | CallFlush
  | CallDeleteExpired int64 "string list"
  | JanitorTick int64 "string list"
  | CallStopJanitor

fun apply_call :: "('a \<Rightarrow> error + bytes) \<Rightarrow> Cache \<Rightarrow> 'a call \<Rightarrow> Cache" where
  "apply_call marshal c (CallSet key v d now1 now2) =
     snd (SetWithExpiration marshal c key v d now1 now2)"
| "apply_call marshal c (CallDelete key) = Delete c key"
| "apply_call marshal c CallFlush = Flush c"
| "apply_call marshal c (CallDeleteExpired now ks) = DeleteExpired c now ks"
| "apply_call marshal c (JanitorTick now ks) = startJanitor_tick c now ks"
| "apply_call marshal c CallStopJanitor =
     (case StopJanitor c of Returns c' \<Rightarrow> c' | BlocksForever \<Rightarrow> c)"

fun run :: "('a \<Rightarrow> error + bytes) \<Rightarrow> Cache \<Rightarrow> 'a call list \<Rightarrow> Cache" where
  "run marshal c [] = c"
| "run marshal c (x # xs) = run marshal (apply_call marshal c x) xs"

text \<open>The calls that delete or replace the entry of a key.\<close>

fun replaces :: "string \<Rightarrow> 'a call \<Rightarrow> bool" where
  "replaces k (CallSet key v d now1 now2) = (key = k)"
| "replaces k (CallDelete key) = (key = k)"
| "replaces k CallFlush = True"
| "replaces k (CallDeleteExpired now ks) = False"
| "replaces k (JanitorTick now ks) = False"
| "replaces k CallStopJanitor = False"

text \<open>
  \<open>json.Unmarshal\<close> (encoding/json, standard library) checks that the data is valid JSON
  before it writes anything to the target. The first step of that check: after white
  space, the data must begin a value. What follows is left to \<open>decode\<close>.
\<close>

definition json_space :: "byte \<Rightarrow> bool" where
  "json_space ch \<longleftrightarrow> ch \<in> set [CHR '' '', CHR 0x09, CHR 0x0A, CHR 0x0D]"

definition begins_json_value :: "byte \<Rightarrow> bool" where
  "begins_json_value ch \<longleftrightarrow> ch \<in> set (CHR 0x22 # ''{[-0123456789tfn'')"

definition json_Unmarshal ::
  "(bytes \<Rightarrow> 'p \<Rightarrow> error option \<times> 'p) \<Rightarrow> bytes \<Rightarrow> 'p \<Rightarrow> error option \<times> 'p" where
  "json_Unmarshal decode data p =
     (case dropWhile json_space data of
        [] \<Rightarrow> (Some json_unexpected_end, p)
      | ch # _ \<Rightarrow>
          if begins_json_value ch then decode data p
          else (Some (json_invalid_character ch), p))"

definition keep_target :: "bytes \<Rightarrow> bytes \<Rightarrow> error option \<times> bytes" where
  "keep_target data p = (None, p)"

text \<open>
  The encoder and the decoder of the examples below: what encoding/json does with values
  and targets of three Go types, \<open>bool\<close>, \<open>struct{ n int }\<close> (its only field is not
  exported) and \<open>chan int\<close>. A channel has no encoding. A struct without exported
  fields is encoded as the empty object, and the empty object written into it changes
  nothing. \<open>null\<close> changes no target of these types. White space around the data is
  skipped. Objects with members are not among the data of the examples and are refused
  here.
\<close>

datatype go_value = GoBool bool | GoHidden int | GoChan

fun marshal_go :: "go_value \<Rightarrow> error + bytes" where
  "marshal_go (GoBool b) = Inr (if b then ''true'' else ''false'')"
| "marshal_go (GoHidden n) = Inr ''{}''"
| "marshal_go GoChan = Inl (json_error ''json: unsupported type: chan int'')"




subsection \<open>Slices shared with the caller\<close>

text \<open>
  SetWithExpiration keeps the slice it is given (\<open>bytes = v\<close>) and GetBytes returns the
  slice it has stored (\<open>item.Value\<close>): the caller and the cache then hold the same
  array, and what the caller writes into it shows in the cache. \<open>Value\<close> is what the
  stored slice shows at the moment. The world adds the arrays the program holds, and for
  each entry the slice it stores: an array, where the slice starts in it, and how many
  bytes it shows. The arrays made by the caller and the arrays made inside
  SetWithExpiration (by \<open>[]byte(v)\<close> and by \<open>json.Marshal\<close>, which both return a new
  array) are never the same.
\<close>

datatype addr = CallerArray nat | CacheArray nat

record slice =
  array :: addr
  start :: nat
  extent :: nat

record World =
  cache :: Cache
  arrays :: "addr \<Rightarrow> bytes"
  backing :: "(string, slice) fmap"
  made :: nat

definition window :: "World \<Rightarrow> slice \<Rightarrow> bytes" where
  "window w sl = take (extent sl) (drop (start sl) (arrays w (array sl)))"

text \<open>The argument of a Set: a \<open>[]byte\<close> is a slice of an array the caller holds.\<close>

datatype 'a arg = ABytes slice | AString string | AOther 'a

fun arg_val :: "World \<Rightarrow> 'a arg \<Rightarrow> 'a val" where
  "arg_val w (ABytes sl) = VBytes (window w sl)"
| "arg_val w (AString s) = VString s"
| "arg_val w (AOther x) = VOther x"

definition keep_slice :: "World \<Rightarrow> Cache \<Rightarrow> string \<Rightarrow> slice \<Rightarrow> World" where
  "keep_slice w c' key sl = w\<lparr>cache := c', backing := fmupd key sl (backing w)\<rparr>"

text \<open>The bytes just stored under the key are in a new array, and the slice shows all of it.\<close>

definition stored_bytes :: "Cache \<Rightarrow> string \<Rightarrow> bytes" where
  "stored_bytes c key = (case fmlookup (items c) key of None \<Rightarrow> [] | Some it \<Rightarrow> Value it)"

definition new_slice :: "World \<Rightarrow> Cache \<Rightarrow> string \<Rightarrow> World" where
  "new_slice w c' key =
     w\<lparr>cache := c',
       arrays := (arrays w)(CacheArray (made w) := stored_bytes c' key),
       backing := fmupd key
                    \<lparr>array = CacheArray (made w), start = 0,
                     extent = length (stored_bytes c' key)\<rparr>
                    (backing w),
       made := Suc (made w)\<rparr>"

definition SetWithExpiration_shared ::
  "('a \<Rightarrow> error + bytes) \<Rightarrow> World \<Rightarrow> string \<Rightarrow> 'a arg \<Rightarrow> Duration \<Rightarrow> int64 \<Rightarrow> int64
     \<Rightarrow> error option \<times> World" where
  "SetWithExpiration_shared marshal w key x duration now1 now2 =
     (case SetWithExpiration marshal (cache w) key (arg_val w x) duration now1 now2 of
        (Some err, c') \<Rightarrow> (Some err, w)
      | (None, c') \<Rightarrow>
          (case x of
             ABytes sl \<Rightarrow> (None, keep_slice w c' key sl)
           | AString s \<Rightarrow> (None, new_slice w c' key)
           | AOther y \<Rightarrow> (None, new_slice w c' key)))"



text \<open>
  A write of the byte \<open>x\<close> at the place \<open>j\<close> of the array \<open>a\<close>, by the caller through
  any slice of that array: every stored slice that shows this place shows the new byte.
  A place outside the array is one no slice reaches (the index is out of range, the
  caller panics), and nothing is written.
\<close>

definition in_slice :: "slice \<Rightarrow> addr \<Rightarrow> nat \<Rightarrow> bool" where
  "in_slice sl a j \<longleftrightarrow> array sl = a \<and> start sl \<le> j \<and> j < start sl + extent sl"

definition write_item :: "(string, slice) fmap \<Rightarrow> addr \<Rightarrow> nat \<Rightarrow> byte \<Rightarrow> string \<Rightarrow> Item \<Rightarrow> Item" where
  "write_item b a j x k it =
     (case fmlookup b k of
        None \<Rightarrow> it
      | Some sl \<Rightarrow>
          if in_slice sl a j then it\<lparr>Value := (Value it)[j - start sl := x]\<rparr> else it)"

definition caller_write :: "World \<Rightarrow> addr \<Rightarrow> nat \<Rightarrow> byte \<Rightarrow> World" where
  "caller_write w a j x =
     (if j < length (arrays w a) then
        w\<lparr>arrays := (arrays w)(a := (arrays w a)[j := x]),
          cache := (cache w)\<lparr>items :=
            fmmap_keys (write_item (backing w) a j x) (items (cache w))\<rparr>\<rparr>
      else w)"

text \<open>The other calls act on the cache; an entry that is gone keeps no slice.\<close>

definition on_cache :: "World \<Rightarrow> Cache \<Rightarrow> World" where
  "on_cache w c' = w\<lparr>cache := c', backing := fmrestrict_fset (fmdom (items c')) (backing w)\<rparr>"

datatype 'a shared_call =
    SharedSet string "'a arg" Duration int64 int64
  | SharedDelete string
  | SharedFlush
  | SharedDeleteExpired int64 "string list"
  | SharedJanitorTick int64 "string list"
  | SharedStopJanitor
  | CallerWrite addr nat byte

fun shared_apply :: "('a \<Rightarrow> error + bytes) \<Rightarrow> World \<Rightarrow> 'a shared_call \<Rightarrow> World" where
  "shared_apply marshal w (SharedSet key x d now1 now2) =
     snd (SetWithExpiration_shared marshal w key x d now1 now2)"
| "shared_apply marshal w (SharedDelete key) = on_cache w (Delete (cache w) key)"
| "shared_apply marshal w SharedFlush = on_cache w (Flush (cache w))"
| "shared_apply marshal w (SharedDeleteExpired now ks) =
     on_cache w (DeleteExpired (cache w) now ks)"
| "shared_apply marshal w (SharedJanitorTick now ks) =
     on_cache w (startJanitor_tick (cache w) now ks)"
| "shared_apply marshal w SharedStopJanitor =
     (case StopJanitor (cache w) of Returns c' \<Rightarrow> on_cache w c' | BlocksForever \<Rightarrow> w)"
| "shared_apply marshal w (CallerWrite a j x) = caller_write w a j x"



text \<open>
  A world is coherent when every stored slice lies within its array and the entry shows
  what the array holds there, and every array made inside SetWithExpiration has been
  counted. A call is known when the slice it passes exists and lies within its array: an
  array made inside SetWithExpiration reaches the caller only through GetBytes, after it
  was made.
\<close>

definition coherent :: "World \<Rightarrow> bool" where
  "coherent w \<longleftrightarrow>
     (\<forall>k sl. fmlookup (backing w) k = Some sl \<longrightarrow>
        (\<exists>it. fmlookup (items (cache w)) k = Some it \<and> Value it = window w sl)
        \<and> start sl + extent sl \<le> length (arrays w (array sl)))
     \<and> (\<forall>k sl n. fmlookup (backing w) k = Some sl \<and> array sl = CacheArray n \<longrightarrow> n < made w)"

fun known :: "World \<Rightarrow> 'a shared_call \<Rightarrow> bool" where
  "known w (SharedSet key (ABytes sl) d now1 now2) =
     (start sl + extent sl \<le> length (arrays w (array sl))
      \<and> (\<forall>n. array sl = CacheArray n \<longrightarrow> n < made w))"
| "known w x = True"

subsection \<open>Example states\<close>

text \<open>
  A cache with no janitor after three calls: \<open>a\<close> expires at instant 5, \<open>b\<close> never,
  \<open>c\<close> at instant 50. The values are text, so the encoder is never asked.
\<close>

definition example_cache :: Cache where
  "example_cache =
     run Inr (New 0)
       [CallSet ''a'' (VString ''x'') 4 1 1,
        CallSet ''b'' (VString ''y'') 0 2 2,
        CallSet ''c'' (VString ''z'') 47 3 3]"

text \<open>
  A cache whose entry was set, at an instant of the year 2026, with the longest duration
  there is: the sum does not fit in 64 bits and the stored expiration is negative.
\<close>

definition overflow_cache :: Cache where
  "overflow_cache =
     snd (SetWithExpiration Inr (New 0) ''k'' (VString ''v'')
            9223372036854775807 1793000000000000000 1793000000000000000)"



section \<open>Properties\<close>

subsection \<open>Reading the signed comparisons\<close>

lemma int64_sub_no_wrap:
  fixes n e :: int64
  assumes "0 \<le>s n" and "n \<le>s e"
  shows "sint (e - n) = sint e - sint n"
proof -
  have n0: "0 \<le> sint n" using assms(1) by (simp add: word_sle_eq)
  have ne: "sint n \<le> sint e" using assms(2) by (simp add: word_sle_eq)
  have up: "sint e < 2 ^ 63" using sint_lt [of e] by simp
  have lo: "- (2 ^ 63) \<le> sint e - sint n" using n0 ne by simp
  have hi: "sint e - sint n < 2 ^ 63" using n0 up by simp
  have "sint (e - n) = signed_take_bit 63 (sint e - sint n)"
    by (simp add: sint_word_ariths)
  also have "\<dots> = sint e - sint n"
    using lo hi by (simp add: signed_take_bit_int_eq_self)
  finally show ?thesis .
qed

subsection \<open>The loop of DeleteExpired\<close>

lemma range_items_lookup:
  "fmlookup (range_items now ks m) k =
     (case fmlookup m k of
        None \<Rightarrow> None
      | Some v \<Rightarrow>
          if k \<in> set ks \<and> 0 <s Expiration v \<and> Expiration v <s now then None else Some v)"
  by (induction ks arbitrary: m) (auto split: option.splits)


subsection \<open>What a sequence of calls keeps\<close>

text \<open>
  An entry that the sweep does not take (its expiration is not positive) stays under its
  key through every call that does not delete or replace that key.
\<close>

lemma apply_call_keeps:
  assumes "\<not> replaces k x" and "fmlookup (items c) k = Some it" and "\<not> 0 <s Expiration it"
  shows "fmlookup (items (apply_call marshal c x)) k = Some it"
proof (cases x)
  case (CallSet key v d now1 now2)
  with assms show ?thesis
    by (auto simp: SetWithExpiration_def Let_def split: sum.splits)
next
  case (CallDelete key)
  with assms show ?thesis by (simp add: Delete_def)
next
  case CallFlush
  with assms show ?thesis by simp
next
  case (CallDeleteExpired now ks)
  with assms show ?thesis by (simp add: DeleteExpired_def range_items_lookup)
next
  case (JanitorTick now ks)
  with assms show ?thesis
    by (simp add: startJanitor_tick_def DeleteExpired_def range_items_lookup)
next
  case CallStopJanitor
  with assms show ?thesis
    by (simp add: StopJanitor_def split: goroutine.splits)
qed

lemma run_keeps:
  assumes "\<forall>x \<in> set xs. \<not> replaces k x"
    and "fmlookup (items c) k = Some it" and "\<not> 0 <s Expiration it"
  shows "fmlookup (items (run marshal c xs)) k = Some it"
  using assms
proof (induction xs arbitrary: c)
  case Nil
  then show ?case by simp
next
  case (Cons x xs)
  from Cons.prems have "fmlookup (items (apply_call marshal c x)) k = Some it"
    by (simp add: apply_call_keeps)
  with Cons show ?case by simp
qed

lemma SetWithExpiration_stores_sentinel:
  assumes "fst (SetWithExpiration marshal c key v d now1 now2) = None" and "d \<le>s 0"
  shows "\<exists>bs. to_bytes marshal v = Inr bs
           \<and> fmlookup (items (snd (SetWithExpiration marshal c key v d now1 now2))) key
               = Some \<lparr>Value = bs, Expiration = 0, Created = now2\<rparr>"
  using assms by (auto simp: SetWithExpiration_def Let_def split: sum.splits)

subsection \<open>What a sequence of calls keeps, with shared slices\<close>







subsection \<open>The stored slices show their arrays\<close>

text \<open>
  Every call keeps the world coherent: the bytes of an entry are at every moment those
  its slice shows of its array, whoever wrote them. A write changes no expiration, so
  that Exists and TTL answer as before.
\<close>

lemma window_update:
  "take n (drop m (xs[j := x])) =
     (if m \<le> j \<and> j < m + n then (take n (drop m xs))[j - m := x] else take n (drop m xs))"
proof (cases "m \<le> j")
  case True
  then have d: "drop m (xs[j := x]) = (drop m xs)[j - m := x]"
    by (rule drop_update_swap)
  show ?thesis
  proof (cases "j < m + n")
    case True
    with \<open>m \<le> j\<close> d show ?thesis by (simp add: take_update_swap)
  next
    case False
    with \<open>m \<le> j\<close> have "n \<le> j - m" by simp
    with False d show ?thesis by simp
  qed
next
  case False
  then show ?thesis by simp
qed

lemma empty_coherent: "backing w = fmempty \<Longrightarrow> coherent w"
  by (simp add: coherent_def)

lemma caller_write_Exists: "Exists (cache (caller_write w a j x)) k now = Exists (cache w) k now"
  by (auto simp: caller_write_def Exists_def write_item_def split: option.splits)

lemma caller_write_TTL: "TTL (cache (caller_write w a j x)) k now = TTL (cache w) k now"
  by (auto simp: caller_write_def TTL_def write_item_def split: option.splits)

lemma on_cache_coherent:
  assumes "coherent w"
    and "\<forall>k it. fmlookup (items c') k = Some it \<longrightarrow> fmlookup (items (cache w)) k = Some it"
  shows "coherent (on_cache w c')"
proof -
  have "(\<exists>it. fmlookup (items c') k = Some it \<and> Value it = window (on_cache w c') sl)
        \<and> start sl + extent sl \<le> length (arrays w (array sl))"
    if "fmlookup (backing w) k = Some sl" and "k |\<in>| fmdom (items c')" for k sl
  proof -
    from that(2) obtain it where it: "fmlookup (items c') k = Some it"
      by (auto simp: fmlookup_dom_iff)
    with assms(2) have "fmlookup (items (cache w)) k = Some it" by simp
    moreover from assms(1) that(1) obtain it' where
      "fmlookup (items (cache w)) k = Some it'" and "Value it' = window w sl"
      and "start sl + extent sl \<le> length (arrays w (array sl))"
      unfolding coherent_def by blast
    ultimately show ?thesis using it by (simp add: window_def on_cache_def)
  qed
  moreover have "n < made w"
    if "fmlookup (backing w) k = Some sl" and "array sl = CacheArray n" for k sl n
    using assms(1) that unfolding coherent_def by blast
  ultimately show ?thesis
    unfolding coherent_def by (auto simp: on_cache_def split: if_splits)
qed

lemma keep_slice_coherent:
  assumes "coherent w" and "start sl + extent sl \<le> length (arrays w (array sl))"
    and "\<forall>n. array sl = CacheArray n \<longrightarrow> n < made w"
    and "c' = (cache w)\<lparr>items := fmupd key \<lparr>Value = window w sl, Expiration = e, Created = t\<rparr>
                                  (items (cache w))\<rparr>"
  shows "coherent (keep_slice w c' key sl)"
  using assms unfolding coherent_def
  by (auto simp: keep_slice_def window_def)

lemma new_slice_coherent:
  assumes "coherent w"
    and "c' = (cache w)\<lparr>items := fmupd key \<lparr>Value = bs, Expiration = e, Created = t\<rparr>
                                  (items (cache w))\<rparr>"
  shows "coherent (new_slice w c' key)"
proof -
  have fresh: "array sl \<noteq> CacheArray (made w)" if "fmlookup (backing w) k = Some sl" for k sl
    using assms(1) that unfolding coherent_def by (metis less_irrefl)
  show ?thesis
    unfolding coherent_def
  proof (intro conjI allI impI)
    fix k sl
    assume b: "fmlookup (backing (new_slice w c' key)) k = Some sl"
    show "\<exists>it. fmlookup (items (cache (new_slice w c' key))) k = Some it
             \<and> Value it = window (new_slice w c' key) sl"
    proof (cases "k = key")
      case True
      with b assms(2) show ?thesis
        by (auto simp: new_slice_def stored_bytes_def window_def)
    next
      case False
      with b have old: "fmlookup (backing w) k = Some sl" by (simp add: new_slice_def)
      from fresh [OF old] have ne: "array sl \<noteq> CacheArray (made w)" .
      from assms(1) old obtain it where
        "fmlookup (items (cache w)) k = Some it" and "Value it = window w sl"
        unfolding coherent_def by blast
      with False ne assms(2) show ?thesis
        by (simp add: new_slice_def window_def)
    qed
    show "start sl + extent sl \<le> length (arrays (new_slice w c' key) (array sl))"
    proof (cases "k = key")
      case True
      with b assms(2) show ?thesis
        by (auto simp: new_slice_def stored_bytes_def)
    next
      case False
      with b have old: "fmlookup (backing w) k = Some sl" by (simp add: new_slice_def)
      from fresh [OF old] have ne: "array sl \<noteq> CacheArray (made w)" .
      from assms(1) old have "start sl + extent sl \<le> length (arrays w (array sl))"
        unfolding coherent_def by blast
      with ne show ?thesis by (simp add: new_slice_def)
    qed
  next
    fix k sl n
    assume "fmlookup (backing (new_slice w c' key)) k = Some sl \<and> array sl = CacheArray n"
    then show "n < made (new_slice w c' key)"
      using assms(1) unfolding coherent_def
      by (cases "k = key") (auto simp: new_slice_def less_Suc_eq)
  qed
qed

lemma caller_write_coherent:
  assumes "coherent w"
  shows "coherent (caller_write w a j x)"
proof (cases "j < length (arrays w a)")
  case False
  with assms show ?thesis by (simp add: caller_write_def)
next
  case True
  have "(\<exists>it. fmlookup (items (cache (caller_write w a j x))) k = Some it
           \<and> Value it = window (caller_write w a j x) sl)
        \<and> start sl + extent sl \<le> length (arrays (caller_write w a j x) (array sl))"
    if "fmlookup (backing w) k = Some sl" for k sl
  proof -
    from assms that obtain it where
      it: "fmlookup (items (cache w)) k = Some it" and v: "Value it = window w sl"
      and le: "start sl + extent sl \<le> length (arrays w (array sl))"
      unfolding coherent_def by blast
    show ?thesis
    proof (cases "array sl = a")
      case True
      with \<open>j < length (arrays w a)\<close> it v le that show ?thesis
        by (simp add: caller_write_def write_item_def in_slice_def window_def window_update)
    next
      case False
      with \<open>j < length (arrays w a)\<close> it v le that show ?thesis
        by (simp add: caller_write_def write_item_def in_slice_def window_def)
    qed
  qed
  note entries = this
  have counted: "n < made w"
    if "fmlookup (backing w) k = Some sl" and "array sl = CacheArray n" for k sl n
    using assms that unfolding coherent_def by blast
  have same: "backing (caller_write w a j x) = backing w"
    and count: "made (caller_write w a j x) = made w"
    by (simp_all add: caller_write_def)
  have 1: "\<forall>k sl. fmlookup (backing w) k = Some sl \<longrightarrow>
      (\<exists>it. fmlookup (items (cache (caller_write w a j x))) k = Some it
           \<and> Value it = window (caller_write w a j x) sl)
        \<and> start sl + extent sl \<le> length (arrays (caller_write w a j x) (array sl))"
    using entries by blast
  have 2: "\<forall>k sl n. fmlookup (backing w) k = Some sl \<and> array sl = CacheArray n \<longrightarrow> n < made w"
    using counted by blast
  show ?thesis
    unfolding coherent_def same count using 1 2 by (rule conjI)
qed

lemma shared_apply_coherent:
  assumes "coherent w" and "known w x"
  shows "coherent (shared_apply marshal w x)"
proof (cases x)
  case (SharedSet key y d now1 now2)
  show ?thesis
  proof (cases "to_bytes marshal (arg_val w y)")
    case (Inl err)
    with SharedSet assms(1) show ?thesis
      by (simp add: SetWithExpiration_shared_def SetWithExpiration_def)
  next
    case (Inr bs)
    then have sw: "SetWithExpiration marshal (cache w) key (arg_val w y) d now1 now2 =
        (None, (cache w)\<lparr>items := fmupd key
           \<lparr>Value = bs, Expiration = (if d \<le>s 0 then 0 else now1 + d), Created = now2\<rparr>
           (items (cache w))\<rparr>)"
      by (simp add: SetWithExpiration_def Let_def)
    show ?thesis
    proof (cases y)
      case (ABytes sl)
      with Inr have bs: "bs = window w sl" by simp
      from ABytes SharedSet assms(2) have
        "start sl + extent sl \<le> length (arrays w (array sl))"
        and "\<forall>n. array sl = CacheArray n \<longrightarrow> n < made w"
        by simp_all
      from keep_slice_coherent [OF assms(1) this refl] ABytes SharedSet sw bs
      show ?thesis by (simp add: SetWithExpiration_shared_def)
    next
      case (AString t)
      from new_slice_coherent [OF assms(1) refl] AString SharedSet sw
      show ?thesis by (simp add: SetWithExpiration_shared_def)
    next
      case (AOther v)
      from new_slice_coherent [OF assms(1) refl] AOther SharedSet sw
      show ?thesis by (simp add: SetWithExpiration_shared_def)
    qed
  qed
next
  case (SharedDelete key)
  with assms show ?thesis
    by (auto intro!: on_cache_coherent simp: Delete_def split: if_splits)
next
  case SharedFlush
  with assms show ?thesis by (auto intro!: on_cache_coherent simp: Flush_def)
next
  case (SharedDeleteExpired now ks)
  with assms show ?thesis
    by (auto intro!: on_cache_coherent simp: DeleteExpired_def range_items_lookup
        split: option.splits if_splits)
next
  case (SharedJanitorTick now ks)
  with assms show ?thesis
    by (auto intro!: on_cache_coherent simp: startJanitor_tick_def DeleteExpired_def
        range_items_lookup split: option.splits if_splits)
next
  case SharedStopJanitor
  with assms show ?thesis
    by (auto intro!: on_cache_coherent simp: StopJanitor_def split: goroutine.splits if_splits)
next
  case (CallerWrite a j b)
  with assms(1) show ?thesis by (simp add: caller_write_coherent)
qed

subsection \<open>Data that is not JSON\<close>

text \<open>
  Whatever the rest of the decoder does, data whose first byte is neither white space nor
  the beginning of a JSON value is rejected, and the target is left as it was.
\<close>

lemma json_Unmarshal_rejects:
  assumes "\<not> json_space ch" and "\<not> begins_json_value ch"
  shows "json_Unmarshal decode (ch # data) p
           = (Some (json_invalid_character ch), p)"
  using assms by (simp add: json_Unmarshal_def)

subsection \<open>The example states, evaluated\<close>

lemma example_cache_items:
  "items example_cache =
     fmupd ''c'' \<lparr>Value = ''z'', Expiration = 50, Created = 3\<rparr>
       (fmupd ''b'' \<lparr>Value = ''y'', Expiration = 0, Created = 2\<rparr>
         (fmupd ''a'' \<lparr>Value = ''x'', Expiration = 5, Created = 1\<rparr> fmempty))"
  by (simp add: example_cache_def SetWithExpiration_def New_def bytes_of_string_def
      word_sle_eq)

subsection \<open>DeleteExpired\<close>

text \<open>
  C2, as stated: DeleteExpired removes the entries whose expiration is nonzero and at most
  \<open>now\<close>. It does not hold at the boundary: an entry set at instant 1000 with a duration
  of 250 expires at 1250, and a DeleteExpired running at instant 1250 keeps it.
\<close>

theorem DeleteExpired_boundary_counterexample:
  "fmlookup (items (snd (SetWithExpiration Inr (New 0) ''a'' (VString ''x'') 250 1000 1000))) ''a''
     = Some \<lparr>Value = ''x'', Expiration = 1250, Created = 1000\<rparr>
   \<and> (1250 :: int64) \<noteq> 0 \<and> (1250 :: int64) \<le>s 1250
   \<and> fmlookup (items (DeleteExpired
         (snd (SetWithExpiration Inr (New 0) ''a'' (VString ''x'') 250 1000 1000)) 1250 [''a''])) ''a''
     = Some \<lparr>Value = ''x'', Expiration = 1250, Created = 1000\<rparr>"
  by (simp add: SetWithExpiration_def New_def DeleteExpired_def bytes_of_string_def
      word_sle_eq word_sless_alt)

text \<open>
  C2, amended: for every cache, every instant \<open>now\<close> and every order in which the loop
  meets the keys, DeleteExpired removes exactly the entries whose expiration is positive
  and strictly before \<open>now\<close>; every other entry (expiration zero or negative, equal to
  \<open>now\<close> or later) stays in the mapping unchanged, and nothing else of the cache changes.
\<close>

theorem DeleteExpired_removes_exactly:
  assumes "range_order ks (items c)"
  shows "fmlookup (items (DeleteExpired c now ks)) k =
           (case fmlookup (items c) k of
              None \<Rightarrow> None
            | Some v \<Rightarrow> if 0 <s Expiration v \<and> Expiration v <s now then None else Some v)
         \<and> cleanupInterval (DeleteExpired c now ks) = cleanupInterval c
         \<and> janitor (DeleteExpired c now ks) = janitor c"
proof -
  have "k \<in> set ks" if "fmlookup (items c) k = Some v" for v
    using assms that by (simp add: range_order_def fmdom'I)
  then show ?thesis
    by (auto simp: DeleteExpired_def range_items_lookup split: option.splits)
qed

theorem DeleteExpired_removes_exactly_witness:
  "range_order [''b'', ''c'', ''a''] (items example_cache)
   \<and> fmlookup (items (DeleteExpired example_cache 10 [''b'', ''c'', ''a''])) ''a'' = None
   \<and> fmlookup (items (DeleteExpired example_cache 10 [''b'', ''c'', ''a''])) ''b''
       = Some \<lparr>Value = ''y'', Expiration = 0, Created = 2\<rparr>
   \<and> fmlookup (items (DeleteExpired example_cache 10 [''b'', ''c'', ''a''])) ''c''
       = Some \<lparr>Value = ''z'', Expiration = 50, Created = 3\<rparr>"
proof -
  have h: "range_order [''b'', ''c'', ''a''] (items example_cache)"
    by (auto simp: range_order_def example_cache_def SetWithExpiration_def New_def)
  note its = example_cache_items
  show ?thesis
    using h DeleteExpired_removes_exactly [OF h, of 10 "''a''"]
      DeleteExpired_removes_exactly [OF h, of 10 "''b''"]
      DeleteExpired_removes_exactly [OF h, of 10 "''c''"]
    by (simp add: its word_sless_alt)
qed

subsection \<open>Expiration on the read path\<close>

text \<open>
  C3, as stated: a key is reported as not found exactly when it is absent, or present with
  a nonzero expiration that \<open>now\<close> has passed. It does not hold for a negative expiration:
  the entry of \<open>overflow_cache\<close> has one, every instant of the year 2026 is after it,
  and GetBytes and Exists still find the key.
\<close>

theorem GetBytes_negative_expiration_counterexample:
  "fmlookup (items overflow_cache) ''k''
     = Some \<lparr>Value = ''v'', Expiration = - 7430372036854775809, Created = 1793000000000000000\<rparr>
   \<and> (- 7430372036854775809 :: int64) \<noteq> 0
   \<and> (- 7430372036854775809 :: int64) <s 1793000000000000001
   \<and> GetBytes overflow_cache ''k'' 1793000000000000001 = (''v'', True)
   \<and> Exists overflow_cache ''k'' 1793000000000000001 = True"
  by (simp add: overflow_cache_def SetWithExpiration_def New_def GetBytes_def Exists_def
      bytes_of_string_def word_sle_eq word_sless_alt)

text \<open>
  C3, amended: for every key and every instant \<open>now\<close>, GetBytes reports found = false, and
  Exists returns false, if and only if the key is absent from the mapping or present with
  a positive expiration and \<open>now\<close> strictly after it; an expired entry counts as absent
  although it is still in the mapping, and GetBytes and Exists apply the same check.
\<close>

theorem GetBytes_Exists_found_iff:
  "(snd (GetBytes c k now) = False \<longleftrightarrow>
      fmlookup (items c) k = None
      \<or> (\<exists>it. fmlookup (items c) k = Some it \<and> 0 <s Expiration it \<and> Expiration it <s now))
   \<and> Exists c k now = snd (GetBytes c k now)"
  by (auto simp: GetBytes_def Exists_def split: option.splits)

theorem GetBytes_Exists_found_iff_witness:
  "snd (GetBytes example_cache ''a'' 10) = False
   \<and> fmlookup (items example_cache) ''a'' \<noteq> None
   \<and> Exists example_cache ''a'' 10 = False
   \<and> Exists example_cache ''zz'' 10 = False
   \<and> Exists example_cache ''b'' 10 = True"
  using GetBytes_Exists_found_iff [of example_cache "''a''" 10]
    GetBytes_Exists_found_iff [of example_cache "''zz''" 10]
    GetBytes_Exists_found_iff [of example_cache "''b''" 10]
  by (simp add: example_cache_def SetWithExpiration_def New_def bytes_of_string_def
      word_sle_eq word_sless_alt)

subsection \<open>TTL\<close>

text \<open>
  C5: for every key and every instant \<open>now\<close>, TTL fails with the error "key not found"
  when the key is absent; returns the infinite value -1 with no error when the key is
  present with expiration zero; fails with the error "key expired", which is another
  error than "key not found", when the key is present with a nonzero expiration and
  \<open>now\<close> is after it; and otherwise returns the duration Expiration - now with no error.
  The difference is the one of the integers whenever the clock is not before 1970.
\<close>

theorem TTL_cases:
  "(fmlookup (items c) key = None \<longrightarrow>
      TTL c key now = (0, Some (errors_New ''key not found'')))
   \<and> (\<forall>it. fmlookup (items c) key = Some it \<and> Expiration it = 0 \<longrightarrow>
         TTL c key now = (- 1, None))
   \<and> (\<forall>it. fmlookup (items c) key = Some it \<and> Expiration it \<noteq> 0 \<and> Expiration it <s now \<longrightarrow>
         TTL c key now = (0, Some (errors_New ''key expired'')))
   \<and> (\<forall>it. fmlookup (items c) key = Some it \<and> Expiration it \<noteq> 0 \<and> \<not> Expiration it <s now \<longrightarrow>
         TTL c key now = (Expiration it - now, None)
         \<and> (0 \<le>s now \<longrightarrow> sint (fst (TTL c key now)) = sint (Expiration it) - sint now))
   \<and> errors_New ''key expired'' \<noteq> errors_New ''key not found''"
proof -
  have "sint (Expiration it - now) = sint (Expiration it) - sint now"
    if "\<not> Expiration it <s now" and "0 \<le>s now" for it :: "Item"
  proof -
    from that(1) have "now \<le>s Expiration it"
      by (simp add: word_sle_eq word_sless_alt)
    with that(2) show ?thesis by (rule int64_sub_no_wrap)
  qed
  then show ?thesis by (simp add: TTL_def)
qed

theorem TTL_cases_witness:
  "TTL example_cache ''zz'' 10 = (0, Some (errors_New ''key not found''))
   \<and> TTL example_cache ''b'' 10 = (- 1, None)
   \<and> TTL example_cache ''a'' 10 = (0, Some (errors_New ''key expired''))
   \<and> TTL example_cache ''c'' 10 = (40, None)
   \<and> sint (fst (TTL example_cache ''c'' 10)) = 50 - 10"
proof -
  note its = example_cache_items
  show ?thesis
    using TTL_cases [of example_cache "''zz''" 10] TTL_cases [of example_cache "''b''" 10]
      TTL_cases [of example_cache "''a''" 10] TTL_cases [of example_cache "''c''" 10]
    by (simp add: its word_sle_eq word_sless_alt)
qed

text \<open>
  C9: for every key whose stored expiration is the zero sentinel, TTL returns the duration
  -1 together with no error. The value is negative, while a TTL returned with no error
  for an expiring key is not, the clock being not before 1970: the sign of the duration,
  not an error, tells an infinite TTL from a finite one.
\<close>

theorem TTL_infinite_is_minus_one:
  "(\<forall>it. fmlookup (items c) key = Some it \<and> Expiration it = 0 \<longrightarrow>
      TTL c key now = (- 1, None) \<and> sint (fst (TTL c key now)) = - 1
      \<and> fst (TTL c key now) <s 0)
   \<and> (\<forall>it. fmlookup (items c) key = Some it \<and> Expiration it \<noteq> 0 \<and> 0 \<le>s now
          \<and> snd (TTL c key now) = None \<longrightarrow> 0 \<le>s fst (TTL c key now))"
proof -
  have "0 \<le>s Expiration it - now"
    if "\<not> Expiration it <s now" and "0 \<le>s now" for it :: "Item"
  proof -
    from that(1) have le: "now \<le>s Expiration it"
      by (simp add: word_sle_eq word_sless_alt)
    have "sint (Expiration it - now) = sint (Expiration it) - sint now"
      using that(2) le by (rule int64_sub_no_wrap)
    with le show ?thesis by (simp add: word_sle_eq)
  qed
  then show ?thesis by (simp add: TTL_def word_sless_alt)
qed

theorem TTL_infinite_is_minus_one_witness:
  "TTL example_cache ''b'' 10 = (- 1, None)
   \<and> fst (TTL example_cache ''b'' 10) <s 0
   \<and> snd (TTL example_cache ''c'' 10) = None
   \<and> 0 \<le>s fst (TTL example_cache ''c'' 10)"
proof -
  note its = example_cache_items
  have t: "snd (TTL example_cache ''c'' 10) = None"
    by (simp add: TTL_def its word_sless_alt)
  show ?thesis
    using TTL_infinite_is_minus_one [of example_cache "''b''" 10]
      TTL_infinite_is_minus_one [of example_cache "''c''" 10] t
    by (simp add: its word_sle_eq)
qed

subsection \<open>Get with a nil target\<close>

text \<open>
  C10: with a nil target, Get answers what Exists answers, with no error, and leaves the
  target nil, whatever the decoder is: for every key that is present and not expired it
  returns (true, nil), for every other key (false, nil), and the stored bytes are never
  handed to the decoder, so no decoding error can come out.
\<close>

theorem Get_nil_target:
  "Get unmarshal c key NilTarget now = Inr (Exists c key now, None, NilTarget)"
  by (auto simp: Get_def GetBytes_def Exists_def split: option.splits)

theorem Get_nil_target_witness:
  "Get (json_Unmarshal keep_target) example_cache ''b'' NilTarget 10
     = Inr (True, None, NilTarget)
   \<and> Get (json_Unmarshal keep_target) example_cache ''a'' NilTarget 10
       = Inr (False, None, NilTarget)
   \<and> Get (json_Unmarshal keep_target) example_cache ''zz'' NilTarget 10
       = Inr (False, None, NilTarget)
   \<and> json_Unmarshal keep_target ''y'' [] = (Some (json_invalid_character CHR ''y''), [])"
  using Get_nil_target [of "json_Unmarshal keep_target" example_cache "''b''" 10]
    Get_nil_target [of "json_Unmarshal keep_target" example_cache "''a''" 10]
    Get_nil_target [of "json_Unmarshal keep_target" example_cache "''zz''" 10]
  by (simp add: Exists_def example_cache_items word_sless_alt
      json_Unmarshal_def json_space_def begins_json_value_def)

subsection \<open>SetWithExpiration\<close>

text \<open>
  C6: for every key, value and duration, SetWithExpiration fails only when the value is
  neither bytes nor text and the encoder fails on it, with the encoder's error; the cache
  is then returned as it was. When it succeeds, the mapping holds the whole new entry
  under the key (encoded bytes, expiration, creation instant), every other key keeps its
  entry, and the rest of the cache is unchanged.
\<close>

theorem SetWithExpiration_all_or_nothing:
  "(fst (SetWithExpiration marshal c key v d now1 now2) \<noteq> None
      \<longleftrightarrow> (\<exists>x e. v = VOther x \<and> marshal x = Inl e))
   \<and> (\<forall>e. fst (SetWithExpiration marshal c key v d now1 now2) = Some e \<longrightarrow>
         snd (SetWithExpiration marshal c key v d now1 now2) = c
         \<and> (\<exists>x. v = VOther x \<and> marshal x = Inl e))
   \<and> (fst (SetWithExpiration marshal c key v d now1 now2) = None \<longrightarrow>
         (\<exists>bs. to_bytes marshal v = Inr bs
            \<and> fmlookup (items (snd (SetWithExpiration marshal c key v d now1 now2))) key
                = Some \<lparr>Value = bs, Expiration = (if d \<le>s 0 then 0 else now1 + d),
                        Created = now2\<rparr>)
         \<and> (\<forall>k. k \<noteq> key \<longrightarrow>
               fmlookup (items (snd (SetWithExpiration marshal c key v d now1 now2))) k
                 = fmlookup (items c) k)
         \<and> cleanupInterval (snd (SetWithExpiration marshal c key v d now1 now2))
             = cleanupInterval c
         \<and> janitor (snd (SetWithExpiration marshal c key v d now1 now2)) = janitor c)"
  by (cases v) (auto simp: SetWithExpiration_def Let_def split: sum.splits)

theorem SetWithExpiration_all_or_nothing_witness:
  "SetWithExpiration Inl example_cache ''a'' (VOther (json_error ''unsupported type'')) 7 20 20
     = (Some (json_error ''unsupported type''), example_cache)
   \<and> fst (SetWithExpiration Inl example_cache ''a'' (VString ''w'') 7 20 21) = None
   \<and> fmlookup (items (snd (SetWithExpiration Inl example_cache ''a'' (VString ''w'') 7 20 21))) ''a''
       = Some \<lparr>Value = ''w'', Expiration = 27, Created = 21\<rparr>
   \<and> fmlookup (items (snd (SetWithExpiration Inl example_cache ''a'' (VString ''w'') 7 20 21))) ''b''
       = Some \<lparr>Value = ''y'', Expiration = 0, Created = 2\<rparr>"
proof -
  have f: "fst (SetWithExpiration Inl example_cache ''a''
                 (VOther (json_error ''unsupported type'')) 7 20 20)
           = Some (json_error ''unsupported type'')"
    by (simp add: SetWithExpiration_def)
  have g: "fst (SetWithExpiration Inl example_cache ''a'' (VString ''w'') 7 20 21) = None"
    by (simp add: SetWithExpiration_def Let_def)
  have "snd (SetWithExpiration Inl example_cache ''a''
               (VOther (json_error ''unsupported type'')) 7 20 20) = example_cache"
    using f SetWithExpiration_all_or_nothing
        [of Inl example_cache "''a''" "VOther (json_error ''unsupported type'')" 7 20 20]
    by blast
  with f have 1: "SetWithExpiration Inl example_cache ''a''
        (VOther (json_error ''unsupported type'')) 7 20 20
      = (Some (json_error ''unsupported type''), example_cache)"
    by (simp add: prod_eq_iff)
  have 2: "fmlookup (items (snd (SetWithExpiration Inl example_cache ''a'' (VString ''w'') 7 20 21))) ''a''
       = Some \<lparr>Value = ''w'', Expiration = 27, Created = 21\<rparr>"
    using g SetWithExpiration_all_or_nothing [of Inl example_cache "''a''" "VString ''w''" 7 20 21]
    by (simp add: bytes_of_string_def word_sle_eq)
  have 3: "fmlookup (items (snd (SetWithExpiration Inl example_cache ''a'' (VString ''w'') 7 20 21))) ''b''
       = fmlookup (items example_cache) ''b''"
    using g SetWithExpiration_all_or_nothing [of Inl example_cache "''a''" "VString ''w''" 7 20 21]
    by simp
  show ?thesis
    using 1 g 2 3 by (simp add: example_cache_items)
qed

text \<open>
  C7, as stated: for every key, every value and every duration that is zero or negative,
  SetWithExpiration stores a never-expiring entry. It does not hold for a value that
  cannot be encoded: with a channel as the value and the duration zero,
  SetWithExpiration returns the encoder's error and stores nothing; Exists is false and
  TTL fails with "key not found".
\<close>

theorem SetWithExpiration_unencodable_counterexample:
  "(0 :: int64) \<le>s 0
   \<and> SetWithExpiration marshal_go (New 0) ''k'' (VOther GoChan) 0 5 5
       = (Some (json_error ''json: unsupported type: chan int''), New 0)
   \<and> Exists (snd (SetWithExpiration marshal_go (New 0) ''k'' (VOther GoChan) 0 5 5)) ''k'' 6
       = False
   \<and> TTL (snd (SetWithExpiration marshal_go (New 0) ''k'' (VOther GoChan) 0 5 5)) ''k'' 6
       = (0, Some (errors_New ''key not found''))"
  by (simp add: SetWithExpiration_def New_def Exists_def TTL_def)

text \<open>
  C7, amended: for every key, every value and every duration that is zero or negative, a
  SetWithExpiration that returns no error stores an entry whose expiration is the zero
  sentinel; through every later sequence of calls that neither deletes nor flushes nor
  sets the key again, and at every instant, the entry keeps that expiration, Exists is
  true and TTL returns the infinite value -1 with no error.
\<close>

theorem SetWithExpiration_nonpositive_never_expires:
  assumes "d \<le>s 0"
    and "fst (SetWithExpiration marshal c key v d now1 now2) = None"
    and "\<forall>x \<in> set xs. \<not> replaces key x"
  shows "(\<exists>it. fmlookup (items (run marshal (snd (SetWithExpiration marshal c key v d now1 now2)) xs))
                  key = Some it \<and> Expiration it = 0)
         \<and> Exists (run marshal (snd (SetWithExpiration marshal c key v d now1 now2)) xs) key now
         \<and> TTL (run marshal (snd (SetWithExpiration marshal c key v d now1 now2)) xs) key now
             = (- 1, None)"
proof -
  from SetWithExpiration_stores_sentinel [OF assms(2) assms(1)] obtain bs where
    "fmlookup (items (snd (SetWithExpiration marshal c key v d now1 now2))) key
       = Some \<lparr>Value = bs, Expiration = 0, Created = now2\<rparr>"
    by blast
  with assms(3) have
    "fmlookup (items (run marshal (snd (SetWithExpiration marshal c key v d now1 now2)) xs)) key
       = Some \<lparr>Value = bs, Expiration = 0, Created = now2\<rparr>"
    by (simp add: run_keeps)
  then show ?thesis by (simp add: Exists_def TTL_def)
qed

theorem SetWithExpiration_nonpositive_never_expires_witness:
  "(- 5 :: int64) \<le>s 0
   \<and> fst (SetWithExpiration Inr example_cache ''n'' (VBytes ''q'') (- 5) 20 20) = None
   \<and> Exists (run Inr (snd (SetWithExpiration Inr example_cache ''n'' (VBytes ''q'') (- 5) 20 20))
               [CallSet ''a'' (VString ''w'') 1 21 21, CallDelete ''b'',
                CallDeleteExpired 9000 [''n'', ''a'', ''c''], JanitorTick 9001 [''c'', ''n'']])
        ''n'' 9223372036854775807
   \<and> TTL (run Inr (snd (SetWithExpiration Inr example_cache ''n'' (VBytes ''q'') (- 5) 20 20))
               [CallSet ''a'' (VString ''w'') 1 21 21, CallDelete ''b'',
                CallDeleteExpired 9000 [''n'', ''a'', ''c''], JanitorTick 9001 [''c'', ''n'']])
        ''n'' 9223372036854775807 = (- 1, None)"
proof -
  have d: "(- 5 :: int64) \<le>s 0" by (simp add: word_sle_eq)
  have f: "fst (SetWithExpiration Inr example_cache ''n'' (VBytes ''q'') (- 5) 20 20) = None"
    by (simp add: SetWithExpiration_def Let_def)
  have r: "\<forall>x \<in> set [CallSet ''a'' (VString ''w'') 1 21 21, CallDelete ''b'',
                   CallDeleteExpired 9000 [''n'', ''a'', ''c''], JanitorTick 9001 [''c'', ''n'']].
         \<not> replaces ''n'' x"
    by simp
  show ?thesis
    using d f SetWithExpiration_nonpositive_never_expires [OF d f r, of 9223372036854775807]
    by blast
qed

subsection \<open>Set, then Get\<close>




subsection \<open>Count\<close>

text \<open>
  C8: for every cache and every instant, Count is the number of entries in the mapping:
  the keys for which Exists is true at that instant, plus the keys whose entry has
  expired and is still in the mapping. So Count is at least the number of keys for which
  Exists is true, and more whenever an expired entry has not been purged.
\<close>

theorem Count_includes_expired:
  "Count c = card (fmdom' (items c))
   \<and> Count c = card {k. Exists c k now} + card {k. k \<in> fmdom' (items c) \<and> \<not> Exists c k now}
   \<and> card {k. Exists c k now} \<le> Count c"
proof -
  let ?live = "{k. Exists c k now}"
  let ?dead = "{k. k \<in> fmdom' (items c) \<and> \<not> Exists c k now}"
  have cnt: "Count c = card (fmdom' (items c))"
    by (simp add: Count_def fmdom'_alt_def fcard.rep_eq)
  have sub: "?live \<subseteq> fmdom' (items c)"
    by (auto simp: Exists_def fmlookup_dom'_iff split: option.splits)
  have fin: "finite (fmdom' (items c))"
    by (simp add: fmdom'_alt_def)
  have un: "fmdom' (items c) = ?live \<union> ?dead" using sub by auto
  have dis: "?live \<inter> ?dead = {}" by auto
  have "finite ?live" and "finite ?dead"
    using fin sub by (auto intro: finite_subset)
  then have "card (?live \<union> ?dead) = card ?live + card ?dead"
    using dis by (simp add: card_Un_disjoint)
  with cnt un show ?thesis by simp
qed

theorem Count_includes_expired_witness:
  "Count example_cache = 3
   \<and> card {k. Exists example_cache k 10} = 2
   \<and> card {k. k \<in> fmdom' (items example_cache) \<and> \<not> Exists example_cache k 10} = 1
   \<and> card {k. Exists example_cache k 10} < Count example_cache"
proof -
  have dead: "{k. k \<in> fmdom' (items example_cache) \<and> \<not> Exists example_cache k 10} = {''a''}"
    by (auto simp: Exists_def example_cache_items word_sless_alt split: if_splits)
  have dom: "card (fmdom' (items example_cache)) = 3"
    by (simp add: example_cache_items)
  have one: "card {k. k \<in> fmdom' (items example_cache) \<and> \<not> Exists example_cache k 10} = 1"
    by (simp only: dead) simp
  from Count_includes_expired [of example_cache 10] have
    c1: "Count example_cache = card (fmdom' (items example_cache))" and
    c2: "Count example_cache = card {k. Exists example_cache k 10}
           + card {k. k \<in> fmdom' (items example_cache) \<and> \<not> Exists example_cache k 10}"
    by blast+
  from c1 dom have three: "Count example_cache = 3" by simp
  with c2 one have two: "card {k. Exists example_cache k 10} = 2" by simp
  from three two one show ?thesis by simp
qed

subsection \<open>StopJanitor\<close>

text \<open>
  A cache made with an interval that is not positive has no janitor, and StopJanitor
  returns at once, any number of times.
\<close>

lemma StopJanitor_without_janitor:
  "\<not> 0 <s ci \<Longrightarrow> StopJanitor (New ci) = Returns (New ci)"
  by (simp add: StopJanitor_def New_def)

text \<open>
  Once a StopJanitor has sent its signal, no StopJanitor on the same cache returns.
\<close>

lemma StopJanitor_only_once:
  assumes "0 <s cleanupInterval c" and "StopJanitor c = Returns c'"
  shows "StopJanitor c' = BlocksForever"
  using assms by (auto simp: StopJanitor_def split: goroutine.splits)

text \<open>
  C1 at the input where the code departs from it: a cache made with an interval of one
  minute; the first StopJanitor returns, the janitor having received the signal and
  returned; the second StopJanitor sends again, no goroutine receives, and the call
  never returns.
\<close>

theorem StopJanitor_second_call_blocks:
  "StopJanitor (New 60000000000)
     = Returns \<lparr>items = fmempty, cleanupInterval = 60000000000, janitor = Returned\<rparr>
   \<and> StopJanitor \<lparr>items = fmempty, cleanupInterval = 60000000000, janitor = Returned\<rparr>
       = BlocksForever"
  by (simp add: StopJanitor_def New_def word_sless_alt)

end
